theory Spec2Isabelle
  imports
    Main
    "HOL-Library.Multiset"
    "HOL-Library.Char_ord"
    "HOL-Library.List_Lexorder"
begin

section \<open>Data model\<close>

text \<open>
  A pandas DataFrame is modelled column-wise, as pandas stores it: one list per column,
  row \<open>i\<close> of the frame being position \<open>i\<close> of every column. Only the columns read or
  written by the code under study are kept. A missing cell (NaN) of the text column
  \<open>location\<close> is \<open>None\<close>. Python strings are \<open>string\<close>, holding the UTF-8 bytes of the
  text; they are compared as Python compares them, lexicographically by character code,
  which is the order of the UTF-8 bytes. The frames are those \<open>read_csv\<close> gives: a column
  with rows and no text cell at all is a column of floats, not of strings.
\<close>

record dataframe =
  location :: "string option list"
  keywords_list :: "string list list"
  is_remote :: "bool list"

datatype py_error = TypeError | ValueError | KeyError | AttributeError

text \<open>
  A \<open>collections.Counter\<close> is a dictionary, so it keeps its keys in the order of their
  first insertion; \<open>most_common\<close> breaks ties by that order. It is therefore an association
  list in first-seen order. Counts are Python integers.
\<close>

type_synonym 'a counter = "('a \<times> int) list"

section \<open>String operations of the feature columns\<close>



fun startswith :: "string \<Rightarrow> string \<Rightarrow> bool" where
  "startswith s [] = True"
| "startswith [] (p # ps) = False"
| "startswith (c # cs) (p # ps) = (c = p \<and> startswith cs ps)"




text \<open>
  eda.py:
  \<^verbatim>\<open>remote_keywords = ['remote', 'anywhere', 'global', 'worldwide', 'work from home', 'wfh']\<close>
  \<^verbatim>\<open>df['is_remote'] = df['location'].str.contains('|'.join(remote_keywords), case=False, na=False)\<close>
  The pattern is an alternation of literals, searched with \<open>re.IGNORECASE\<close>. Under that flag
  a letter of the pattern matches every character whose lower-case form it is and the
  characters of the regex module's table of further equivalents. For the ASCII letters
  these are the letter in both cases and, beyond ASCII, exactly four characters:
  U+0130 and U+0131 for i, U+212A for k, U+017F for s. A character that is not a letter
  matches itself only. A missing cell gives \<open>na\<close>, that is \<open>False\<close>.

  The \<open>.str\<close> accessor exists on columns of strings only: on a column with rows and no text
  cell, which \<open>read_csv\<close> makes a column of floats, it raises \<open>AttributeError\<close>. A column
  without rows is a column of objects, and the accessor works on it.
\<close>

definition remote_keywords :: "string list" where
  "remote_keywords =
     [''remote'', ''anywhere'', ''global'', ''worldwide'', ''work from home'', ''wfh'']"

text \<open>The UTF-8 bytes of U+0130, U+0131, U+212A and U+017F.\<close>

definition capital_i_with_dot :: string where
  "capital_i_with_dot = [CHR 0xC4, CHR 0xB0]"

definition dotless_i :: string where
  "dotless_i = [CHR 0xC4, CHR 0xB1]"

definition kelvin_sign :: string where
  "kelvin_sign = [CHR 0xE2, CHR 0x84, CHR 0xAA]"

definition long_s :: string where
  "long_s = [CHR 0xC5, CHR 0xBF]"

text \<open>\<open>ignorecase_forms p\<close>: the texts that the pattern character \<open>p\<close>, an ASCII character,
  matches under \<open>re.IGNORECASE\<close>.\<close>

definition ignorecase_forms :: "char \<Rightarrow> string list" where
  "ignorecase_forms p =
     (let n = (of_char p :: nat) in
      [[p]]
      @ (if 97 \<le> n \<and> n \<le> 122 then [[char_of (n - 32)]] else [])
      @ (if 65 \<le> n \<and> n \<le> 90 then [[char_of (n + 32)]] else [])
      @ (if p = CHR ''i'' \<or> p = CHR ''I'' then [capital_i_with_dot, dotless_i] else [])
      @ (if p = CHR ''k'' \<or> p = CHR ''K'' then [kelvin_sign] else [])
      @ (if p = CHR ''s'' \<or> p = CHR ''S'' then [long_s] else []))"

text \<open>\<open>match_ignorecase s pat\<close>: the literal \<open>pat\<close> matches at the start of \<open>s\<close>;
  \<open>search_ignorecase s pat\<close>: it matches somewhere in \<open>s\<close>.\<close>

fun match_ignorecase :: "string \<Rightarrow> string \<Rightarrow> bool" where
  "match_ignorecase s [] = True"
| "match_ignorecase s (p # ps) =
     list_ex (\<lambda>u. startswith s u \<and> match_ignorecase (drop (length u) s) ps) (ignorecase_forms p)"

fun search_ignorecase :: "string \<Rightarrow> string \<Rightarrow> bool" where
  "search_ignorecase [] pat = match_ignorecase [] pat"
| "search_ignorecase (c # cs) pat = (match_ignorecase (c # cs) pat \<or> search_ignorecase cs pat)"

definition eda_is_remote :: "dataframe \<Rightarrow> py_error + dataframe" where
  "eda_is_remote df =
     (if location df \<noteq> [] \<and> list_all (\<lambda>cell. cell = None) (location df)
      then Inl AttributeError
      else Inr (df\<lparr>is_remote :=
                  map (\<lambda>cell. case cell of
                         None \<Rightarrow> False
                       | Some s \<Rightarrow> list_ex (\<lambda>kw. search_ignorecase s kw) remote_keywords)
                      (location df)\<rparr>))"

section \<open>Letters and their cases\<close>




section \<open>Counter and most_common\<close>

text \<open>
  \<open>Counter(iterable)\<close> runs \<^verbatim>\<open>for elem in iterable: self[elem] = self.get(elem, 0) + 1\<close>.
\<close>

fun count_element :: "'a \<Rightarrow> 'a counter \<Rightarrow> 'a counter" where
  "count_element x [] = [(x, 1)]"
| "count_element x ((k, c) # kcs) =
     (if k = x then (k, c + 1) # kcs else (k, c) # count_element x kcs)"

definition Counter :: "'a list \<Rightarrow> 'a counter" where
  "Counter xs = foldl (\<lambda>m x. count_element x m) [] xs"

text \<open>
  \<open>most_common(n)\<close> is \<^verbatim>\<open>heapq.nlargest(n, self.items(), key=itemgetter(1))\<close>, which is
  \<^verbatim>\<open>sorted(items, key=itemgetter(1), reverse=True)[:n]\<close> for a positive \<open>n\<close> and the empty
  list otherwise (its selection loop takes \<^verbatim>\<open>zip(range(0, -n, -1), it)\<close>, which is empty).
  Python's sort is stable, also with \<open>reverse=True\<close>: entries of equal count keep their
  order. A stable descending sort by count is a stable ascending sort by the negated count.
\<close>

definition sorted_reverse :: "'a counter \<Rightarrow> 'a counter" where
  "sorted_reverse items = sort_key (\<lambda>kc. - snd kc) items"

definition nlargest :: "int \<Rightarrow> 'a counter \<Rightarrow> 'a counter" where
  "nlargest n items = (if n \<le> 0 then [] else take (nat n) (sorted_reverse items))"

definition most_common :: "'a counter \<Rightarrow> int \<Rightarrow> 'a counter" where
  "most_common c n = nlargest n c"

section \<open>get_top_skills\<close>

text \<open>
  \<^verbatim>\<open>
  def get_top_skills(df, n=20):
      all_skills = []
      for skills in df['keywords_list']:
          all_skills.extend(skills)
      return Counter(all_skills).most_common(n)
  \<close>
  The function has no \<open>raise\<close> and none of its calls raises on a frame with the column
  and an integer \<open>n\<close>, so every path of the model ends in \<open>Inr\<close>.
\<close>

definition extend_all :: "string list list \<Rightarrow> string list" where
  "extend_all col = foldl (\<lambda>all_skills skills. all_skills @ skills) [] col"

definition get_top_skills :: "dataframe \<Rightarrow> int \<Rightarrow> py_error + string counter" where
  "get_top_skills df n = Inr (most_common (Counter (extend_all (keywords_list df))) n)"

section \<open>Skill pairs (main)\<close>

text \<open>
  \<^verbatim>\<open>
  skill_pairs = []
  for skills in filtered_df['keywords_list']:
      if len(skills) >= 2:
          for i in range(len(skills)):
              for j in range(i+1, len(skills)):
                  pair = tuple(sorted([skills[i], skills[j]]))
                  skill_pairs.append(pair)
  pair_counts = Counter(skill_pairs).most_common(10)
  \<close>
  Both indices stay below \<open>len(skills)\<close>, so no read is out of range.
\<close>

definition sorted_pair :: "string \<Rightarrow> string \<Rightarrow> string \<times> string" where
  "sorted_pair a b = (if b < a then (b, a) else (a, b))"

definition inner_loop ::
  "string list \<Rightarrow> nat \<Rightarrow> (string \<times> string) list \<Rightarrow> (string \<times> string) list" where
  "inner_loop skills i acc =
     foldl (\<lambda>acc j. acc @ [sorted_pair (skills ! i) (skills ! j)]) acc [i + 1 ..< length skills]"

definition outer_loop ::
  "string list \<Rightarrow> (string \<times> string) list \<Rightarrow> (string \<times> string) list" where
  "outer_loop skills acc = foldl (\<lambda>acc i. inner_loop skills i acc) acc [0 ..< length skills]"

definition append_pairs ::
  "(string \<times> string) list \<Rightarrow> string list \<Rightarrow> (string \<times> string) list" where
  "append_pairs acc skills = (if length skills \<ge> 2 then outer_loop skills acc else acc)"

definition skill_pairs :: "dataframe \<Rightarrow> (string \<times> string) list" where
  "skill_pairs df = foldl append_pairs [] (keywords_list df)"

definition pair_counts :: "dataframe \<Rightarrow> (string \<times> string) counter" where
  "pair_counts df = most_common (Counter (skill_pairs df)) 10"

section \<open>Example frames\<close>

text \<open>The frame of the first example of the specification, with three postings.\<close>

abbreviation example_jobs :: dataframe where
  "example_jobs \<equiv>
     \<lparr>location = [Some ''Remote, US'', None, Some ''Anywhere''],
      keywords_list = [[''python'', ''aws''], [''python'', ''docker''], [''python'']],
      is_remote = [True, False, False]\<rparr>"

text \<open>Two postings with one keyword each, in both orders.\<close>

abbreviation frame_aws_docker :: dataframe where
  "frame_aws_docker \<equiv>
     \<lparr>location = [None, None], keywords_list = [[''aws''], [''docker'']],
      is_remote = [False, False]\<rparr>"

abbreviation frame_docker_aws :: dataframe where
  "frame_docker_aws \<equiv>
     \<lparr>location = [None, None], keywords_list = [[''docker''], [''aws'']],
      is_remote = [False, False]\<rparr>"

text \<open>The frame of the fourth example of the specification: one posting that repeats a
  keyword.\<close>

abbreviation frame_go_go_rust :: dataframe where
  "frame_go_go_rust \<equiv>
     \<lparr>location = [None], keywords_list = [[''go'', ''go'', ''rust'']], is_remote = [False]\<rparr>"

section \<open>Properties of the counter\<close>

lemma Counter_snoc: "Counter (xs @ [x]) = count_element x (Counter xs)"
  by (simp add: Counter_def)

lemma Counter_Nil: "Counter [] = []"
  by (simp add: Counter_def)

lemma keys_count_element:
  "fst ` set (count_element x m) = insert x (fst ` set m)"
  by (induction x m rule: count_element.induct) auto

lemma distinct_count_element:
  "distinct (map fst m) \<Longrightarrow> distinct (map fst (count_element x m))"
proof (induction x m rule: count_element.induct)
  case (1 x)
  then show ?case by simp
next
  case (2 x k c kcs)
  have "fst ` set (count_element x kcs) = insert x (fst ` set kcs)"
    by (rule keys_count_element)
  with 2 show ?case by auto
qed

lemma map_of_count_element:
  "map_of (count_element x m) =
     (map_of m)(x \<mapsto> (case map_of m x of None \<Rightarrow> 1 | Some c \<Rightarrow> c + 1))"
  by (induction x m rule: count_element.induct) (auto simp: fun_eq_iff)

lemma sum_count_element:
  "sum_list (map snd (count_element x m)) = sum_list (map snd m) + 1"
  by (induction x m rule: count_element.induct) auto

lemma length_count_element:
  "length (count_element x m) = (if x \<in> fst ` set m then length m else Suc (length m))"
  by (induction x m rule: count_element.induct) (auto simp: image_iff)

lemma distinct_keys_Counter: "distinct (map fst (Counter xs))"
  by (induction xs rule: rev_induct) (simp_all add: Counter_Nil Counter_snoc distinct_count_element)

lemma map_of_Counter:
  "map_of (Counter xs) k = (if k \<in> set xs then Some (int (count_list xs k)) else None)"
proof (induction xs rule: rev_induct)
  case Nil
  then show ?case by (simp add: Counter_Nil)
next
  case (snoc x xs)
  then show ?case
    by (auto simp: Counter_snoc map_of_count_element)
qed

lemma set_Counter:
  "set (Counter xs) = (\<lambda>k. (k, int (count_list xs k))) ` set xs"
proof -
  have "(k, c) \<in> set (Counter xs) \<longleftrightarrow> k \<in> set xs \<and> c = int (count_list xs k)" for k c
    using map_of_eq_Some_iff [OF distinct_keys_Counter, of xs k c]
    by (auto simp: map_of_Counter split: if_splits)
  then show ?thesis by auto
qed

lemma keys_Counter: "set (map fst (Counter xs)) = set xs"
  by (simp add: set_Counter image_image)

lemma length_Counter: "length (Counter xs) = card (set xs)"
proof -
  have "card (set xs) = card (set (map fst (Counter xs)))"
    by (simp only: keys_Counter)
  also have "\<dots> = length (map fst (Counter xs))"
    by (rule distinct_card [OF distinct_keys_Counter])
  finally show ?thesis by simp
qed

lemma sum_Counter: "sum_list (map snd (Counter xs)) = int (length xs)"
  by (induction xs rule: rev_induct) (simp_all add: Counter_Nil Counter_snoc sum_count_element)

lemma Counter_positive:
  assumes "(k, c) \<in> set (Counter xs)"
  shows "0 < c"
proof -
  from assms have k: "k \<in> set xs" and c: "c = int (count_list xs k)"
    by (auto simp: set_Counter)
  from k have "count_list xs k \<noteq> 0"
    by (simp add: count_list_0_iff)
  with c show ?thesis by simp
qed

lemma distinct_Counter: "distinct (Counter xs)"
  using distinct_keys_Counter [of xs] by (simp add: distinct_map)

lemma mset_Counter_cong:
  assumes "mset xs = mset ys"
  shows "mset (Counter xs) = mset (Counter ys)"
proof -
  have "set xs = set ys" using assms by (rule mset_eq_setD)
  moreover have "count_list xs k = count_list ys k" for k
    using assms by (metis count_mset)
  ultimately have "set (Counter xs) = set (Counter ys)"
    by (simp add: set_Counter)
  then show ?thesis
    using distinct_Counter [of xs] distinct_Counter [of ys]
    by (simp add: set_eq_iff_mset_eq_distinct)
qed

section \<open>Properties of the sort and of the selection\<close>

lemma extend_all_concat: "extend_all col = concat col"
proof -
  have "foldl (\<lambda>all_skills skills. all_skills @ skills) acc col = acc @ concat col" for acc
    by (induction col arbitrary: acc) simp_all
  then show ?thesis by (simp add: extend_all_def)
qed

lemma mset_sorted_reverse: "mset (sorted_reverse items) = mset items"
  by (simp add: sorted_reverse_def)

lemma set_sorted_reverse: "set (sorted_reverse items) = set items"
  by (simp add: sorted_reverse_def)

lemma length_sorted_reverse: "length (sorted_reverse items) = length items"
  by (simp add: sorted_reverse_def)

lemma counts_sorted_reverse: "sorted_wrt (\<ge>) (map snd (sorted_reverse items))"
proof -
  have "sorted (map (\<lambda>kc. - snd kc) (sorted_reverse items))"
    unfolding sorted_reverse_def by (rule sorted_sort_key)
  then show ?thesis
    by (simp add: sorted_wrt_map)
qed

lemma counts_nlargest: "sorted_wrt (\<ge>) (map snd (nlargest n items))"
  using sorted_wrt_take [OF counts_sorted_reverse, of "nat n" items]
  by (simp add: nlargest_def take_map)

lemma set_nlargest: "set (nlargest n items) \<subseteq> set items"
  using set_take_subset [of "nat n" "sorted_reverse items"]
  by (simp add: nlargest_def set_sorted_reverse)

lemma length_nlargest:
  "length (nlargest n items) = (if n \<le> 0 then 0 else min (nat n) (length items))"
  by (simp add: nlargest_def length_sorted_reverse min.commute)

lemma nlargest_all:
  "mset (nlargest n items) = mset items" if "int (length items) \<le> n"
proof (cases "n \<le> 0")
  case True
  with that have "length items = 0" by linarith
  then have "items = []" by simp
  with True show ?thesis by (simp add: nlargest_def)
next
  case False
  with that have "length (sorted_reverse items) \<le> nat n"
    by (simp add: length_sorted_reverse)
  with False show ?thesis
    by (simp add: nlargest_def mset_sorted_reverse)
qed

section \<open>Reordering the input\<close>

lemma mset_concat_cong:
  assumes "mset xss = mset yss"
  shows "mset (concat xss) = mset (concat yss)"
proof -
  have "mset (concat zss) = sum_mset (image_mset mset (mset zss))" for zss :: "'a list list"
    by (induction zss) simp_all
  with assms show ?thesis by simp
qed

lemma counts_sorted_reverse_cong:
  assumes "mset items = mset items'"
  shows "map snd (sorted_reverse items) = map snd (sorted_reverse items')"
proof -
  let ?f = "\<lambda>kc :: 'a \<times> int. - snd kc"
  have key: "map ?f (sort_key ?f zs) = sort (map ?f zs)" for zs
    by (rule properties_for_sort [symmetric]) (simp_all add: sorted_sort_key)
  have "mset (map ?f items) = mset (map ?f items')"
    using assms by (metis mset_map)
  then have "sort (map ?f items) = sort (map ?f items')"
    by (metis properties_for_sort sorted_sort mset_sort)
  then have "map ?f (sorted_reverse items) = map ?f (sorted_reverse items')"
    by (simp add: key sorted_reverse_def)
  then have "map uminus (map ?f (sorted_reverse items)) = map uminus (map ?f (sorted_reverse items'))"
    by (rule arg_cong)
  then show ?thesis by (simp add: comp_def)
qed

lemma counts_nlargest_cong:
  assumes "mset items = mset items'"
  shows "map snd (nlargest n items) = map snd (nlargest n items')"
  using counts_sorted_reverse_cong [OF assms]
  by (simp add: nlargest_def take_map [symmetric])

lemma nlargest_keeps_larger:
  assumes "(k, c) \<in> set items" and "(k', c') \<in> set (nlargest n items)" and "c' < c"
  shows "(k, c) \<in> set (nlargest n items)"
proof -
  let ?S = "sorted_reverse items"
  from assms(2) have pos: "\<not> n \<le> 0" and in_take: "(k', c') \<in> set (take (nat n) ?S)"
    by (auto simp: nlargest_def split: if_splits)
  from in_take obtain j where j: "j < nat n" "j < length ?S" "?S ! j = (k', c')"
    by (auto simp: in_set_conv_nth)
  from assms(1) have "(k, c) \<in> set ?S"
    by (simp add: set_sorted_reverse)
  then obtain i where i: "i < length ?S" "?S ! i = (k, c)"
    by (auto simp: in_set_conv_nth)
  have desc: "sorted_wrt (\<ge>) (map snd ?S)"
    by (rule counts_sorted_reverse)
  have "i < nat n"
  proof (rule ccontr)
    assume "\<not> i < nat n"
    with j have "j < i" by simp
    with desc i(1) have "snd (?S ! i) \<le> snd (?S ! j)"
      by (auto simp: sorted_wrt_iff_nth_less)
    with i j assms(3) show False by simp
  qed
  with i have "(k, c) \<in> set (take (nat n) ?S)"
    by (auto simp: in_set_conv_nth)
  with pos show ?thesis by (simp add: nlargest_def)
qed

section \<open>Claims about get_top_skills\<close>

lemma get_top_skills_eq:
  "get_top_skills df n = Inr (nlargest n (Counter (concat (keywords_list df))))"
  by (simp add: get_top_skills_def most_common_def extend_all_concat)

text \<open>
  Claim C5. For every frame and every positive \<open>n\<close>, \<open>get_top_skills\<close> returns at most
  \<open>n\<close> entries, every returned count is strictly positive, and the counts never increase
  from one returned entry to the next.
\<close>

theorem get_top_skills_at_most_n_positive_nonincreasing:
  assumes "0 < n"
  shows "\<exists>res. get_top_skills df n = Inr res
           \<and> int (length res) \<le> n
           \<and> (\<forall>(k, c) \<in> set res. 0 < c)
           \<and> sorted_wrt (\<ge>) (map snd res)"
proof -
  let ?items = "Counter (concat (keywords_list df))"
  let ?res = "nlargest n ?items"
  have "int (length ?res) \<le> n"
    using assms by (simp add: length_nlargest)
  moreover have "\<forall>(k, c) \<in> set ?res. 0 < c"
    using set_nlargest [of n ?items] Counter_positive by fastforce
  moreover have "sorted_wrt (\<ge>) (map snd ?res)"
    by (rule counts_nlargest)
  ultimately show ?thesis
    by (simp add: get_top_skills_eq)
qed

theorem get_top_skills_at_most_n_positive_nonincreasing_witness:
  "(0::int) < 2
   \<and> (\<exists>res. get_top_skills example_jobs 2 = Inr res
           \<and> int (length res) \<le> 2
           \<and> (\<forall>(k, c) \<in> set res. 0 < c)
           \<and> sorted_wrt (\<ge>) (map snd res))"
  using get_top_skills_at_most_n_positive_nonincreasing [of 2 example_jobs] by simp

text \<open>The first example of the specification; the tie between aws and docker goes to aws,
  the keyword seen first.\<close>

lemma get_top_skills_example_jobs:
  "get_top_skills example_jobs 2 = Inr [(''python'', 3), (''aws'', 1)]"
  by (simp add: get_top_skills_def most_common_def extend_all_def Counter_def nlargest_def sorted_reverse_def)

text \<open>
  Claim C9. For every frame and every positive \<open>n\<close>, the result of \<open>get_top_skills\<close> has
  exactly \<open>min n d\<close> entries, \<open>d\<close> being the number of distinct keywords that occur in the
  keyword lists of the frame.
\<close>

theorem get_top_skills_length_exact:
  assumes "0 < n"
  shows "\<exists>res. get_top_skills df n = Inr res
           \<and> int (length res) = min n (int (card (set (concat (keywords_list df)))))"
  using assms by (simp add: get_top_skills_eq length_nlargest length_Counter)

theorem get_top_skills_length_exact_witness:
  "(0::int) < 2
   \<and> (\<exists>res. get_top_skills example_jobs 2 = Inr res
           \<and> int (length res) = min 2 (int (card (set (concat (keywords_list example_jobs))))))"
  using get_top_skills_length_exact [of 2 example_jobs] by simp

text \<open>
  Claim C10. \<open>get_top_skills\<close> returns normally for every frame and every integer \<open>n\<close>,
  and what it returns for \<open>n \<le> 0\<close> is the empty list.
\<close>

theorem get_top_skills_total:
  "(\<exists>res. get_top_skills df n = Inr res) \<and> (n \<le> 0 \<longrightarrow> get_top_skills df n = Inr [])"
  by (simp add: get_top_skills_eq nlargest_def)

theorem get_top_skills_total_witness:
  "(\<exists>res. get_top_skills example_jobs (- 3) = Inr res)
   \<and> ((- 3 :: int) \<le> 0 \<and> get_top_skills example_jobs (- 3) = Inr [])"
  using get_top_skills_total [of example_jobs "- 3"] by simp

text \<open>
  Claim C4 says that a non-positive \<open>n\<close> makes \<open>get_top_skills\<close> raise. The function has
  no check of \<open>n\<close>: at \<open>n = 0\<close> and at \<open>n = -1\<close> it returns the empty list.
\<close>

theorem get_top_skills_nonpositive_raises_counterexample:
  "get_top_skills example_jobs 0 = Inr [] \<and> get_top_skills example_jobs (- 1) = Inr []"
  by (simp add: get_top_skills_def most_common_def nlargest_def)

text \<open>
  Claim C4, amended. Called with a non-positive \<open>n\<close>, \<open>get_top_skills\<close> signals nothing: it
  returns normally, and its result is the empty list.
\<close>

theorem get_top_skills_nonpositive_returns_empty:
  assumes "n \<le> 0"
  shows "get_top_skills df n = Inr [] \<and> (\<forall>e. get_top_skills df n \<noteq> Inl e)"
  using assms by (simp add: get_top_skills_def most_common_def nlargest_def)

theorem get_top_skills_nonpositive_returns_empty_witness:
  "(0::int) \<le> 0 \<and> get_top_skills example_jobs 0 = Inr []
     \<and> (\<forall>e. get_top_skills example_jobs 0 \<noteq> Inl e)"
  using get_top_skills_nonpositive_returns_empty [of 0 example_jobs] by simp

text \<open>
  Claim C6. With \<open>n\<close> the number of distinct keywords of the frame, the counts returned by
  \<open>get_top_skills\<close> add up to the number of keyword occurrences in all keyword lists.
\<close>

theorem get_top_skills_counts_sum:
  "\<exists>res. get_top_skills df (int (card (set (concat (keywords_list df))))) = Inr res
         \<and> sum_list (map snd res) = int (sum_list (map length (keywords_list df)))"
proof -
  let ?items = "Counter (concat (keywords_list df))"
  let ?n = "int (card (set (concat (keywords_list df))))"
  have "mset (nlargest ?n ?items) = mset ?items"
    by (rule nlargest_all) (simp add: length_Counter)
  then have "mset (map snd (nlargest ?n ?items)) = mset (map snd ?items)"
    by simp
  then have "sum_list (map snd (nlargest ?n ?items)) = sum_list (map snd ?items)"
    by (metis sum_mset_sum_list)
  also have "\<dots> = int (length (concat (keywords_list df)))"
    by (rule sum_Counter)
  also have "\<dots> = int (sum_list (map length (keywords_list df)))"
    by (simp add: length_concat)
  finally show ?thesis
    by (simp add: get_top_skills_eq)
qed

theorem get_top_skills_counts_sum_witness:
  "\<exists>res. get_top_skills example_jobs 3 = Inr res \<and> sum_list (map snd res) = 5"
  using get_top_skills_counts_sum [of example_jobs] by (simp add: card_insert_if)

text \<open>
  Claim C7 says that reordering the records leaves the keyword-to-count mapping of the result
  unchanged. With a tie at the cut it does not: of two keywords seen once each, \<open>n = 1\<close> keeps
  the one seen first.
\<close>

theorem get_top_skills_permutation_counterexample:
  "mset (keywords_list frame_aws_docker) = mset (keywords_list frame_docker_aws)
   \<and> get_top_skills frame_aws_docker 1 = Inr [(''aws'', 1)]
   \<and> get_top_skills frame_docker_aws 1 = Inr [(''docker'', 1)]
   \<and> (''aws'', 1) \<notin> set [(''docker'', 1 :: int)]"
  by (simp add: get_top_skills_def most_common_def extend_all_def Counter_def nlargest_def
      sorted_reverse_def add_mset_commute)

text \<open>
  Claim C7, amended. For two frames whose keyword lists are reorderings of each other and the
  same \<open>n\<close>, the results of \<open>get_top_skills\<close> carry the same sequence of counts; every
  returned entry has the number of occurrences of its keyword, which is the same in both
  frames; an entry whose count exceeds some count of the other result is in the other result
  too, so the results differ at most in which keywords of the smallest returned count are
  kept; and when \<open>n\<close> is at least the number of distinct keywords the results have the same
  entries, in a possibly different order.
\<close>

theorem get_top_skills_permutation:
  assumes "mset (keywords_list df) = mset (keywords_list df')"
  shows "\<exists>res res'. get_top_skills df n = Inr res \<and> get_top_skills df' n = Inr res'
           \<and> map snd res = map snd res'
           \<and> (\<forall>(k, c) \<in> set res. c = int (count_list (concat (keywords_list df')) k))
           \<and> (\<forall>(k, c) \<in> set res. (\<exists>(k', c') \<in> set res'. c' < c) \<longrightarrow> (k, c) \<in> set res')
           \<and> (int (card (set (concat (keywords_list df)))) \<le> n \<longrightarrow> mset res = mset res')"
proof -
  let ?xs = "concat (keywords_list df)" and ?ys = "concat (keywords_list df')"
  let ?res = "nlargest n (Counter ?xs)" and ?res' = "nlargest n (Counter ?ys)"
  have words: "mset ?xs = mset ?ys"
    using assms by (rule mset_concat_cong)
  then have items: "mset (Counter ?xs) = mset (Counter ?ys)"
    by (rule mset_Counter_cong)
  then have same_set: "set (Counter ?xs) = set (Counter ?ys)"
    by (rule mset_eq_setD)
  have sub: "set ?res \<subseteq> set (Counter ?ys)"
    using set_nlargest [of n "Counter ?xs"] same_set by simp
  have 1: "map snd ?res = map snd ?res'"
    using items by (rule counts_nlargest_cong)
  have 2: "\<forall>(k, c) \<in> set ?res. c = int (count_list ?ys k)"
    using sub by (auto simp: set_Counter)
  have 3: "\<forall>(k, c) \<in> set ?res. (\<exists>(k', c') \<in> set ?res'. c' < c) \<longrightarrow> (k, c) \<in> set ?res'"
    using sub nlargest_keeps_larger [of _ _ "Counter ?ys" _ _ n] by blast
  have 4: "mset ?res = mset ?res'" if "int (card (set ?xs)) \<le> n"
  proof -
    have "card (set ?xs) = card (set ?ys)"
      using words by (metis mset_eq_setD)
    with that show ?thesis
      by (simp add: nlargest_all length_Counter items)
  qed
  from 1 2 3 4 show ?thesis
    by (simp add: get_top_skills_eq)
qed

theorem get_top_skills_permutation_witness:
  "mset (keywords_list frame_aws_docker) = mset (keywords_list frame_docker_aws)
   \<and> (\<exists>res res'. get_top_skills frame_aws_docker 2 = Inr res
         \<and> get_top_skills frame_docker_aws 2 = Inr res'
         \<and> map snd res = map snd res'
         \<and> (\<forall>(k, c) \<in> set res. c = int (count_list (concat (keywords_list frame_docker_aws)) k))
         \<and> (\<forall>(k, c) \<in> set res. (\<exists>(k', c') \<in> set res'. c' < c) \<longrightarrow> (k, c) \<in> set res')
         \<and> mset res = mset res')"
proof -
  have perm: "mset (keywords_list frame_aws_docker) = mset (keywords_list frame_docker_aws)"
    by (simp add: add_mset_commute)
  have "int (card (set (concat (keywords_list frame_aws_docker)))) \<le> 2"
    by (simp add: card_insert_if)
  with perm get_top_skills_permutation [OF perm, of 2] show ?thesis
    by auto
qed

section \<open>Properties of the pair loops\<close>

lemma foldl_append_single:
  "foldl (\<lambda>acc j. acc @ [f j]) acc js = acc @ map f js"
  by (induction js arbitrary: acc) simp_all

lemma foldl_append_concat:
  "foldl (\<lambda>acc x. acc @ g x) acc xs = acc @ concat (map g xs)"
  by (induction xs arbitrary: acc) simp_all

lemma inner_loop_eq:
  "inner_loop skills i acc =
     acc @ map (\<lambda>j. sorted_pair (skills ! i) (skills ! j)) [Suc i ..< length skills]"
  by (simp add: inner_loop_def foldl_append_single)

lemma outer_loop_eq:
  "outer_loop skills acc =
     acc @ [sorted_pair (skills ! i) (skills ! j). i \<leftarrow> [0 ..< length skills], j \<leftarrow> [Suc i ..< length skills]]"
  by (simp add: outer_loop_def inner_loop_eq foldl_append_concat)

lemma append_pairs_eq:
  "append_pairs acc skills =
     acc @ [sorted_pair (skills ! i) (skills ! j). i \<leftarrow> [0 ..< length skills], j \<leftarrow> [Suc i ..< length skills]]"
proof (cases "2 \<le> length skills")
  case True
  then show ?thesis by (simp add: append_pairs_def outer_loop_eq)
next
  case False
  then have "length skills = 0 \<or> length skills = 1" by linarith
  then show ?thesis
    by (auto simp: append_pairs_def)
qed

lemma append_pairs_acc: "append_pairs acc skills = acc @ append_pairs [] skills"
  by (simp add: append_pairs_eq)

lemma skill_pairs_concat: "skill_pairs df = concat (map (append_pairs []) (keywords_list df))"
proof -
  have "foldl append_pairs acc col = acc @ concat (map (append_pairs []) col)" for acc col
  proof (induction col arbitrary: acc)
    case Nil
    then show ?case by simp
  next
    case (Cons skills col)
    then show ?case by (simp add: append_pairs_acc [of acc skills])
  qed
  then show ?thesis by (simp add: skill_pairs_def)
qed

lemma triangle_sum: "sum_list (map (\<lambda>i. k - Suc i) [0 ..< k]) = k * (k - 1) div 2"
proof (induction k)
  case 0
  then show ?case by simp
next
  case (Suc k)
  have "[0 ..< Suc k] = 0 # map Suc [0 ..< k]"
    by (simp add: upt_conv_Cons map_Suc_upt del: upt_Suc)
  then have "sum_list (map (\<lambda>i. Suc k - Suc i) [0 ..< Suc k]) =
      k + sum_list (map (\<lambda>i. k - Suc i) [0 ..< k])"
    by (simp add: comp_def del: upt_Suc)
  also have "\<dots> = k + k * (k - 1) div 2"
    by (simp only: Suc.IH)
  also have "\<dots> = Suc k * (Suc k - 1) div 2"
  proof (cases k)
    case 0
    then show ?thesis by simp
  next
    case (Suc m)
    then show ?thesis by simp
  qed
  finally show ?case .
qed

lemma length_append_pairs:
  "length (append_pairs [] skills) = length skills * (length skills - 1) div 2"
proof -
  have "length (append_pairs [] skills) =
      sum_list (map (\<lambda>i. length skills - Suc i) [0 ..< length skills])"
    by (simp add: append_pairs_eq length_concat comp_def)
  then show ?thesis by (simp only: triangle_sum)
qed

lemma in_append_pairs:
  "p \<in> set (append_pairs [] skills) \<longleftrightarrow>
     (\<exists>i j. i < j \<and> j < length skills \<and> p = sorted_pair (skills ! i) (skills ! j))"
proof
  assume "p \<in> set (append_pairs [] skills)"
  then obtain i j where "Suc i \<le> j" "j < length skills"
      "p = sorted_pair (skills ! i) (skills ! j)"
    by (auto simp: append_pairs_eq)
  then have "i < j \<and> j < length skills \<and> p = sorted_pair (skills ! i) (skills ! j)"
    by simp
  then show "\<exists>i j. i < j \<and> j < length skills \<and> p = sorted_pair (skills ! i) (skills ! j)"
    by blast
next
  assume "\<exists>i j. i < j \<and> j < length skills \<and> p = sorted_pair (skills ! i) (skills ! j)"
  then obtain i j where ij: "i < j" "j < length skills"
      and p: "p = sorted_pair (skills ! i) (skills ! j)"
    by blast
  from ij have i: "i \<in> {0 ..< length skills}" and j: "j \<in> {Suc i ..< length skills}"
    by simp_all
  have "set (append_pairs [] skills) =
      (\<Union>i \<in> {0 ..< length skills}.
         (\<lambda>j. sorted_pair (skills ! i) (skills ! j)) ` {Suc i ..< length skills})"
    by (simp add: append_pairs_eq)
  with i j p show "p \<in> set (append_pairs [] skills)"
    by blast
qed

lemma in_skill_pairs:
  "p \<in> set (skill_pairs df) \<longleftrightarrow>
     (\<exists>skills \<in> set (keywords_list df). \<exists>i j. i < j \<and> j < length skills
        \<and> p = sorted_pair (skills ! i) (skills ! j))"
  by (auto simp: skill_pairs_concat in_append_pairs)

lemma sorted_pair_le: "sorted_pair a b = (x, y) \<Longrightarrow> x \<le> y"
  by (auto simp: sorted_pair_def split: if_splits)

lemma sorted_pair_same: "sorted_pair a b = (x, x) \<Longrightarrow> a = b"
  by (auto simp: sorted_pair_def split: if_splits)

lemma distinct_keys_nlargest:
  assumes "distinct (map fst items)"
  shows "distinct (map fst (nlargest n items))"
proof -
  have "mset (map fst (sorted_reverse items)) = mset (map fst items)"
    by (simp add: mset_sorted_reverse)
  with assms have "distinct (map fst (sorted_reverse items))"
    by (metis mset_eq_imp_distinct_iff)
  then have "distinct (take (nat n) (map fst (sorted_reverse items)))"
    by (rule distinct_take)
  then show ?thesis
    by (simp add: nlargest_def take_map)
qed

section \<open>Claims about the skill pairs\<close>

text \<open>
  Claim C1. The pairs appended for a frame are the concatenation, record by record, of the
  pairs appended for each record alone; those of one record are the index combinations
  \<open>i < j\<close> of its own keyword list, so a list of length \<open>k\<close> gives \<open>k * (k - 1) / 2\<close> of them
  and a list of length 0 or 1 gives none; every pair comes from two positions of one record;
  and the counter is incremented once per pair, \<open>k * (k - 1) / 2\<close> times per record in all.
\<close>

theorem skill_pairs_within_record:
  "skill_pairs df = concat (map (append_pairs []) (keywords_list df))
   \<and> append_pairs [] skills =
       [sorted_pair (skills ! i) (skills ! j).
          i \<leftarrow> [0 ..< length skills], j \<leftarrow> [Suc i ..< length skills]]
   \<and> length (append_pairs [] skills) = length skills * (length skills - 1) div 2
   \<and> (length skills \<le> 1 \<longrightarrow> append_pairs [] skills = [])
   \<and> (\<forall>p \<in> set (skill_pairs df). \<exists>r \<in> set (keywords_list df). \<exists>i j.
         i < j \<and> j < length r \<and> p = sorted_pair (r ! i) (r ! j))
   \<and> sum_list (map snd (Counter (skill_pairs df))) =
       int (\<Sum>r\<leftarrow>keywords_list df. length r * (length r - 1) div 2)"
proof -
  have short: "append_pairs [] skills = []" if "length skills \<le> 1"
    using that by (simp add: append_pairs_def)
  have "length (skill_pairs df) = (\<Sum>r\<leftarrow>keywords_list df. length r * (length r - 1) div 2)"
    by (simp add: skill_pairs_concat length_concat comp_def length_append_pairs)
  then have total: "sum_list (map snd (Counter (skill_pairs df))) =
      int (\<Sum>r\<leftarrow>keywords_list df. length r * (length r - 1) div 2)"
    by (simp only: sum_Counter)
  have within: "\<forall>p \<in> set (skill_pairs df). \<exists>r \<in> set (keywords_list df). \<exists>i j.
         i < j \<and> j < length r \<and> p = sorted_pair (r ! i) (r ! j)"
    by (simp add: in_skill_pairs)
  show ?thesis
    using skill_pairs_concat [of df] append_pairs_eq [of "[]" skills]
      length_append_pairs [of skills] short total within
    by simp
qed

theorem skill_pairs_within_record_witness:
  "length [''python''] \<le> 1 \<and> append_pairs [] [''python''] = []
   \<and> length (append_pairs [] [''go'', ''go'', ''rust'']) = 3
   \<and> (''go'', ''rust'') \<in> set (skill_pairs frame_go_go_rust)
   \<and> (\<exists>r \<in> set (keywords_list frame_go_go_rust). \<exists>i j.
         i < j \<and> j < length r \<and> (''go'', ''rust'') = sorted_pair (r ! i) (r ! j))
   \<and> sum_list (map snd (Counter (skill_pairs frame_go_go_rust))) = 3"
proof -
  note short = skill_pairs_within_record [of frame_go_go_rust "[''python'']"]
  note long = skill_pairs_within_record [of frame_go_go_rust "[''go'', ''go'', ''rust'']"]
  have mem: "(''go'', ''rust'') \<in> set (skill_pairs frame_go_go_rust)"
    by (simp add: skill_pairs_def append_pairs_def outer_loop_def inner_loop_def
        sorted_pair_def upt_rec)
  with long have "\<exists>r \<in> set (keywords_list frame_go_go_rust). \<exists>i j.
         i < j \<and> j < length r \<and> (''go'', ''rust'') = sorted_pair (r ! i) (r ! j)"
    by blast
  moreover from short have "append_pairs [] [''python''] = []"
    by simp
  moreover from long have "length (append_pairs [] [''go'', ''go'', ''rust'']) = 3"
    by simp
  moreover have "sum_list (map snd (Counter (skill_pairs frame_go_go_rust))) = 3"
  proof -
    from long have "sum_list (map snd (Counter (skill_pairs frame_go_go_rust))) =
        int (\<Sum>r\<leftarrow>keywords_list frame_go_go_rust. length r * (length r - 1) div 2)"
      by blast
    then show ?thesis by simp
  qed
  ultimately show ?thesis
    using mem by simp
qed

text \<open>
  Claim C2. For the single record with keyword list go, go, rust the loops append (go, go)
  from positions (0, 1) and (go, rust) from positions (0, 2) and (1, 2); the counter holds
  ((go, go), 1) and ((go, rust), 2), and these are exactly the entries of \<open>pair_counts\<close>,
  which lists the larger count first.
\<close>

theorem pair_counts_go_go_rust:
  "skill_pairs frame_go_go_rust = [(''go'', ''go''), (''go'', ''rust''), (''go'', ''rust'')]
   \<and> Counter (skill_pairs frame_go_go_rust) = [((''go'', ''go''), 1), ((''go'', ''rust''), 2)]
   \<and> pair_counts frame_go_go_rust = [((''go'', ''rust''), 2), ((''go'', ''go''), 1)]
   \<and> set (pair_counts frame_go_go_rust) = {((''go'', ''go''), 1), ((''go'', ''rust''), 2)}"
proof -
  have pairs: "skill_pairs frame_go_go_rust =
      [(''go'', ''go''), (''go'', ''rust''), (''go'', ''rust'')]"
    by (simp add: skill_pairs_def append_pairs_def outer_loop_def inner_loop_def
        sorted_pair_def upt_rec)
  have items: "Counter [(''go'', ''go''), (''go'', ''rust''), (''go'', ''rust'')] =
      [((''go'', ''go''), 1), ((''go'', ''rust''), 2)]"
    by (simp add: Counter_def)
  have top: "nlargest 10 [((''go'', ''go''), 1), ((''go'', ''rust''), 2 :: int)] =
      [((''go'', ''rust''), 2), ((''go'', ''go''), 1)]"
    by (simp add: nlargest_def sorted_reverse_def)
  show ?thesis
    by (auto simp: pair_counts_def most_common_def pairs items top)
qed

text \<open>
  Claim C3 says that every pair entry has its first keyword strictly below its second. The
  record with keyword list go, go, rust gives the entry ((go, go), 1).
\<close>

theorem pair_counts_strict_order_counterexample:
  "((''go'', ''go''), 1) \<in> set (pair_counts frame_go_go_rust) \<and> \<not> ''go'' < ''go''"
  by (simp add: pair_counts_def most_common_def skill_pairs_def append_pairs_def outer_loop_def
      inner_loop_def sorted_pair_def upt_rec Counter_def nlargest_def sorted_reverse_def)

text \<open>
  Claim C3, amended. No two entries of \<open>pair_counts\<close> have the same pair, and every entry
  has its first keyword below or equal to its second, so a pair and its mirror image are
  never both present; the two keywords are equal only when that keyword stands at two
  positions of one record, and when no record repeats a keyword every entry has its first
  keyword strictly below its second.
\<close>

theorem pair_counts_canonical:
  "distinct (map fst (pair_counts df))
   \<and> (\<forall>((a, b), c) \<in> set (pair_counts df).
         a \<le> b
         \<and> (a = b \<longrightarrow> (\<exists>r \<in> set (keywords_list df). \<exists>i j.
               i < j \<and> j < length r \<and> r ! i = a \<and> r ! j = a)))
   \<and> ((\<forall>r \<in> set (keywords_list df). distinct r)
        \<longrightarrow> (\<forall>((a, b), c) \<in> set (pair_counts df). a < b))"
proof -
  have keys: "distinct (map fst (pair_counts df))"
    unfolding pair_counts_def most_common_def
    by (rule distinct_keys_nlargest) (rule distinct_keys_Counter)
  have entry: "a \<le> b \<and> (a = b \<longrightarrow> (\<exists>r \<in> set (keywords_list df). \<exists>i j.
               i < j \<and> j < length r \<and> r ! i = a \<and> r ! j = a))"
    if "((a, b), c) \<in> set (pair_counts df)" for a b c
  proof -
    from that have "((a, b), c) \<in> set (Counter (skill_pairs df))"
      using set_nlargest [of 10 "Counter (skill_pairs df)"]
      by (auto simp: pair_counts_def most_common_def)
    then have "(a, b) \<in> set (skill_pairs df)"
      by (auto simp: set_Counter)
    then obtain r i j where r: "r \<in> set (keywords_list df)" and ij: "i < j" "j < length r"
        and ab: "sorted_pair (r ! i) (r ! j) = (a, b)"
      by (auto simp: in_skill_pairs)
    from ab have "a \<le> b" by (rule sorted_pair_le)
    moreover have "\<exists>r \<in> set (keywords_list df). \<exists>i j.
               i < j \<and> j < length r \<and> r ! i = a \<and> r ! j = a" if "a = b"
    proof -
      from ab that have "r ! i = r ! j"
        by (simp add: sorted_pair_same)
      with ab that have "r ! i = a \<and> r ! j = a"
        by (auto simp: sorted_pair_def split: if_splits)
      with r ij show ?thesis by blast
    qed
    ultimately show ?thesis by blast
  qed
  have strict: "a < b"
    if "\<forall>r \<in> set (keywords_list df). distinct r" and "((a, b), c) \<in> set (pair_counts df)"
    for a b c
  proof -
    from entry [OF that(2)] have le: "a \<le> b"
      and same: "a = b \<longrightarrow> (\<exists>r \<in> set (keywords_list df). \<exists>i j.
               i < j \<and> j < length r \<and> r ! i = a \<and> r ! j = a)"
      by blast+
    have "a \<noteq> b"
    proof
      assume "a = b"
      with same obtain r i j where "r \<in> set (keywords_list df)" "i < j" "j < length r"
          "r ! i = r ! j"
        by auto
      with that(1) show False
        by (auto simp: distinct_conv_nth)
    qed
    with le show ?thesis by simp
  qed
  from keys entry strict show ?thesis
    by (auto simp del: distinct_map)
qed

theorem pair_counts_canonical_witness:
  "((''aws'', ''python''), 1) \<in> set (pair_counts example_jobs)
   \<and> list_all distinct (keywords_list example_jobs)
   \<and> ''aws'' < ''python''
   \<and> distinct (map fst (pair_counts example_jobs))"
proof -
  have mem: "((''aws'', ''python''), 1) \<in> set (pair_counts example_jobs)"
    by (simp add: pair_counts_def most_common_def skill_pairs_def append_pairs_def outer_loop_def
        inner_loop_def sorted_pair_def upt_rec Counter_def nlargest_def sorted_reverse_def)
  have dist: "\<forall>r \<in> set (keywords_list example_jobs). distinct r"
    by simp
  from pair_counts_canonical [of example_jobs] dist
  have "\<forall>((a, b), c) \<in> set (pair_counts example_jobs). a < b"
    and "distinct (map fst (pair_counts example_jobs))"
    by blast+
  with mem dist show ?thesis by (fastforce simp: list_all_iff)
qed

section \<open>Properties of the string operations\<close>












section \<open>Claims about is_remote\<close>

text \<open>
  The search at the characters beyond ASCII, a frame with such a location, a frame whose
  locations are all missing, and the two columns of the example frame.
\<close>

lemma search_ignorecase_beyond_ascii:
  "search_ignorecase (''wor'' @ kelvin_sign @ '' from home'') ''work from home''"
  "search_ignorecase (''WORLDW'' @ capital_i_with_dot @ ''DE'') ''worldwide''"
  "search_ignorecase (''worldw'' @ dotless_i @ ''de'') ''worldwide''"
  "\<not> search_ignorecase ''rem ote'' ''remote''"
  by code_simp+

lemma eda_is_remote_kelvin:
  "eda_is_remote
     \<lparr>location = [None, Some (''Wor'' @ kelvin_sign @ '' from home'')],
      keywords_list = [[], []], is_remote = []\<rparr> =
   Inr \<lparr>location = [None, Some (''Wor'' @ kelvin_sign @ '' from home'')],
          keywords_list = [[], []], is_remote = [False, True]\<rparr>"
  by code_simp

lemma eda_is_remote_all_missing:
  "eda_is_remote \<lparr>location = [None, None], keywords_list = [[], []], is_remote = []\<rparr> =
   Inl AttributeError"
  by code_simp






end
